theory Spec2Isabelle
  imports Main
begin

section \<open>The skip plugin of Prow: prow/plugins/skip/skip.go\<close>

text \<open>
  The plugin reacts to a comment \<^verbatim>\<open>/skip\<close> on an open pull request: every presubmit job
  that has posted a status which is not a success, that the trigger plugin will not run for
  the same comment and that is not required, gets the status \<^verbatim>\<open>success\<close> with the
  description \<^verbatim>\<open>Skipped\<close>.

  The embedding follows \<^verbatim>\<open>handle\<close>. Everything \<^verbatim>\<open>handle\<close> does to the outside (calls of
  the GitHub client, warnings written to the log) is recorded, in order, in a trace of
  events; \<^verbatim>\<open>handle\<close> takes the trace so far and returns its result with the extended trace.
\<close>

subsection \<open>Go values\<close>

text \<open>
  A Go \<^verbatim>\<open>error\<close>: either a plain error with its message, or an error made by
  \<^verbatim>\<open>fmt.Errorf("<prefix>%w", err)\<close>, which wraps \<^verbatim>\<open>err\<close>. The value \<^verbatim>\<open>nil\<close> of an
  \<^verbatim>\<open>error\<close> result is \<open>None\<close> of \<open>error option\<close>.
\<close>

datatype error = New string | Wrap string error

text \<open>\<^verbatim>\<open>err.Error()\<close>, which is what \<^verbatim>\<open>%v\<close> prints.\<close>

fun Error :: "error \<Rightarrow> string" where
  "Error (New msg) = msg"
| "Error (Wrap prefix err) = prefix @ Error err"

text \<open>\<^verbatim>\<open>%d\<close> of \<^verbatim>\<open>fmt.Sprintf\<close>: the decimal digits of an integer.\<close>

fun digits :: "nat \<Rightarrow> string" where
  "digits n =
     (if n < 10 then [''0123456789'' ! n]
      else digits (n div 10) @ [''0123456789'' ! (n mod 10)])"

declare digits.simps [simp del]

definition Sprintf_d :: "int \<Rightarrow> string" where
  "Sprintf_d n = (if n < 0 then ''-'' @ digits (nat (- n)) else digits (nat n))"

subsection \<open>Data of the packages github and config\<close>

text \<open>\<^verbatim>\<open>github.Status\<close>, with the three fields the plugin reads and writes.\<close>

record Status =
  State :: string
  Description :: string
  Context :: string

text \<open>\<^verbatim>\<open>github.CombinedStatus\<close>: the overall state and the status entries, in order.\<close>

record CombinedStatus =
  State :: string
  Statuses :: "Status list"

text \<open>
  Modelled from the spec: the constant \<^verbatim>\<open>github.StatusSuccess\<close> is declared in the package
  github; the spec names the state \<^verbatim>\<open>success\<close>.
\<close>

definition StatusSuccess :: string where
  "StatusSuccess = ''success''"

text \<open>
  Modelled from the spec: the constant \<^verbatim>\<open>github.GenericCommentActionCreated\<close> is declared in
  the package github; the spec names the action \<^verbatim>\<open>created\<close>.
\<close>

definition GenericCommentActionCreated :: string where
  "GenericCommentActionCreated = ''created''"

text \<open>
  \<^verbatim>\<open>config.Presubmit\<close>, with the two fields the plugin reads. Modelled from the spec: the
  method \<^verbatim>\<open>ContextRequired()\<close> is declared in the package config; the spec gives every
  check the boolean attribute \<^verbatim>\<open>required\<close>, which is the field \<open>ContextRequired\<close> here.
\<close>

record Presubmit =
  Name :: string
  Context :: string
  ContextRequired :: bool

text \<open>\<^verbatim>\<open>github.PullRequest\<close>: \<^verbatim>\<open>pr.Base.Ref\<close> and \<^verbatim>\<open>pr.Head.SHA\<close>.\<close>

record PullRequest =
  Base_Ref :: string
  Head_SHA :: string

text \<open>
  \<^verbatim>\<open>github.GenericCommentEvent\<close>: \<open>User_Login\<close> is \<^verbatim>\<open>e.User.Login\<close>, \<open>Repo_Owner_Login\<close> is
  \<^verbatim>\<open>e.Repo.Owner.Login\<close> and \<open>Repo_Name\<close> is \<^verbatim>\<open>e.Repo.Name\<close>.
\<close>

record GenericCommentEvent =
  IsPR :: bool
  IssueState :: string
  Action :: string
  Body :: string
  HTMLURL :: string
  User_Login :: string
  Repo_Owner_Login :: string
  Repo_Name :: string
  Number :: int

subsection \<open>The outside world\<close>

text \<open>One event for every method of the client and one for a warning in the log.\<close>

datatype event =
    EvCreateComment string string int string
  | EvCreateStatus string string string Status
  | EvGetPullRequest string string int
  | EvGetCombinedStatus string string string
  | EvGetPullRequestChanges string string int
  | EvGetRef string string string
  | EvLogWarn string

text \<open>
  The interface \<^verbatim>\<open>githubClient\<close>. What a method answers may depend on everything that
  happened before the call, so every method takes the trace so far as its first argument.
  \<open>GetPullRequestChanges\<close> answers with the names of the changed files.
\<close>

record githubClient =
  CreateComment :: "event list \<Rightarrow> string \<Rightarrow> string \<Rightarrow> int \<Rightarrow> string \<Rightarrow> error option"
  CreateStatus :: "event list \<Rightarrow> string \<Rightarrow> string \<Rightarrow> string \<Rightarrow> Status \<Rightarrow> error option"
  GetPullRequest :: "event list \<Rightarrow> string \<Rightarrow> string \<Rightarrow> int \<Rightarrow> error + PullRequest"
  GetCombinedStatus :: "event list \<Rightarrow> string \<Rightarrow> string \<Rightarrow> string \<Rightarrow> error + CombinedStatus"
  GetPullRequestChanges :: "event list \<Rightarrow> string \<Rightarrow> string \<Rightarrow> int \<Rightarrow> error + string list"
  GetRef :: "event list \<Rightarrow> string \<Rightarrow> string \<Rightarrow> string \<Rightarrow> error + string"

text \<open>A call of a method: its answer, and the trace with the call appended.\<close>

definition call_CreateComment ::
  "githubClient \<Rightarrow> string \<Rightarrow> string \<Rightarrow> int \<Rightarrow> string \<Rightarrow> event list \<Rightarrow> error option \<times> event list" where
  "call_CreateComment gc owner repo number comment w =
     (CreateComment gc w owner repo number comment, w @ [EvCreateComment owner repo number comment])"

definition call_CreateStatus ::
  "githubClient \<Rightarrow> string \<Rightarrow> string \<Rightarrow> string \<Rightarrow> Status \<Rightarrow> event list \<Rightarrow> error option \<times> event list" where
  "call_CreateStatus gc org repo ref s w =
     (CreateStatus gc w org repo ref s, w @ [EvCreateStatus org repo ref s])"

definition call_GetPullRequest ::
  "githubClient \<Rightarrow> string \<Rightarrow> string \<Rightarrow> int \<Rightarrow> event list \<Rightarrow> (error + PullRequest) \<times> event list" where
  "call_GetPullRequest gc org repo number w =
     (GetPullRequest gc w org repo number, w @ [EvGetPullRequest org repo number])"

definition call_GetCombinedStatus ::
  "githubClient \<Rightarrow> string \<Rightarrow> string \<Rightarrow> string \<Rightarrow> event list \<Rightarrow> (error + CombinedStatus) \<times> event list" where
  "call_GetCombinedStatus gc org repo ref w =
     (GetCombinedStatus gc w org repo ref, w @ [EvGetCombinedStatus org repo ref])"

definition call_GetRef ::
  "githubClient \<Rightarrow> string \<Rightarrow> string \<Rightarrow> string \<Rightarrow> event list \<Rightarrow> (error + string) \<times> event list" where
  "call_GetRef gc org repo ref w =
     (GetRef gc w org repo ref, w @ [EvGetRef org repo ref])"

text \<open>\<^verbatim>\<open>log.Warn(resp)\<close>.\<close>

definition log_Warn :: "string \<Rightarrow> event list \<Rightarrow> event list" where
  "log_Warn resp w = w @ [EvLogWarn resp]"

text \<open>
  The functions of other packages that \<^verbatim>\<open>handle\<close> calls are parameters:
  \<^verbatim>\<open>trigger.FilterPresubmits\<close> (the jobs the trigger plugin will run for this comment; it is
  given the client and the logger and may call them, so it takes the trace and returns it as
  it leaves it) and \<^verbatim>\<open>plugins.FormatResponseRaw\<close> (the text of a reply: body, URL and author
  of the comment answered, and the reply). Nothing is assumed about what they return.
\<close>

record externals =
  FilterPresubmits ::
    "bool \<Rightarrow> githubClient \<Rightarrow> string \<Rightarrow> PullRequest \<Rightarrow> Presubmit list \<Rightarrow> event list
       \<Rightarrow> (error + Presubmit list) \<times> event list"
  FormatResponseRaw :: "string \<Rightarrow> string \<Rightarrow> string \<Rightarrow> string \<Rightarrow> string"

text \<open>
  \<^verbatim>\<open>config.Config\<close> with its method \<^verbatim>\<open>GetPresubmits(gitClient, identifier, baseBranch,
  baseSHAGetter, headSHAGetter)\<close>, a parameter too. It may call the two getters, which may
  call the client, so it takes the trace and returns it as it leaves it.
\<close>

type_synonym SHAGetter = "event list \<Rightarrow> (error + string) \<times> event list"

record 'git Config =
  GetPresubmits ::
    "'git \<Rightarrow> string \<Rightarrow> string \<Rightarrow> SHAGetter \<Rightarrow> SHAGetter \<Rightarrow> event list
       \<Rightarrow> (error + Presubmit list) \<times> event list"

subsection \<open>The command pattern\<close>

text \<open>
  \<^verbatim>\<open>skipRe = regexp.MustCompile(`(?mi)^/skip\s*$`)\<close>. A Go string is a sequence of bytes,
  and so is a \<open>string\<close> here. In the syntax of the package regexp:
  \<^item> \<^verbatim>\<open>\s\<close> is the class \<^verbatim>\<open>[\t\n\f\r ]\<close>;
  \<^item> with the flag \<^verbatim>\<open>m\<close>, \<^verbatim>\<open>^\<close> matches at the beginning of the text and after a line feed,
    and \<^verbatim>\<open>$\<close> matches at the end of the text and before a line feed;
  \<^item> with the flag \<^verbatim>\<open>i\<close>, a letter matches every character of its orbit under
    \<^verbatim>\<open>unicode.SimpleFold\<close>: its other case and, for \<^verbatim>\<open>s\<close>, the long s U+017F (in UTF-8 the
    bytes C5 BF), for \<^verbatim>\<open>k\<close>, the Kelvin sign U+212A (the bytes E2 84 AA).
\<close>

definition is_space :: "char \<Rightarrow> bool" where
  "is_space c \<longleftrightarrow> c = CHR 0x09 \<or> c = CHR 0x0A \<or> c = CHR 0x0C \<or> c = CHR 0x0D \<or> c = CHR '' ''"

text \<open>The byte sequences that the literal character \<open>c\<close> of the pattern matches.\<close>

definition fold_orbit :: "char \<Rightarrow> string list" where
  "fold_orbit c =
     (if c = CHR ''s'' then [''s'', ''S'', [CHR 0xC5, CHR 0xBF]]
      else if c = CHR ''k'' then [''k'', ''K'', [CHR 0xE2, CHR 0x84, CHR 0xAA]]
      else if c = CHR ''i'' then [''i'', ''I'']
      else if c = CHR ''p'' then [''p'', ''P'']
      else [[c]])"

text \<open>
  Matching the literal part of the pattern at the front of the text: what is left of the
  text after it, or \<open>None\<close>.
\<close>

fun match_literal :: "string \<Rightarrow> string \<Rightarrow> string option" where
  "match_literal [] t = Some t"
| "match_literal (c # cs) t =
     (case find (\<lambda>enc. take (length enc) t = enc) (fold_orbit c) of
        None \<Rightarrow> None
      | Some enc \<Rightarrow> match_literal cs (drop (length enc) t))"

text \<open>\<^verbatim>\<open>\s*$\<close> at the front of the text.\<close>

fun space_then_eol :: "string \<Rightarrow> bool" where
  "space_then_eol [] = True"
| "space_then_eol (c # cs) = (c = CHR 0x0A \<or> (is_space c \<and> space_then_eol cs))"

text \<open>\<^verbatim>\<open>/skip\s*$\<close> at the front of the text.\<close>

definition match_here :: "string \<Rightarrow> bool" where
  "match_here t = (case match_literal ''/skip'' t of None \<Rightarrow> False | Some r \<Rightarrow> space_then_eol r)"

text \<open>
  The search for a match: the pattern is tried where \<^verbatim>\<open>^\<close> holds, which \<open>bol\<close> tells for
  the current position.
\<close>

fun match_from :: "bool \<Rightarrow> string \<Rightarrow> bool" where
  "match_from bol [] = (bol \<and> match_here [])"
| "match_from bol (c # cs) = ((bol \<and> match_here (c # cs)) \<or> match_from (c = CHR 0x0A) cs)"

definition skipRe_MatchString :: "string \<Rightarrow> bool" where
  "skipRe_MatchString body = match_from True body"

subsection \<open>The helpers of handle\<close>

fun statusExists :: "Presubmit \<Rightarrow> Status list \<Rightarrow> bool" where
  "statusExists job [] = False"
| "statusExists job (status # statuses) =
     (if Status.Context status = Presubmit.Context job then True
      else statusExists job statuses)"

fun isSuccess :: "Presubmit \<Rightarrow> Status list \<Rightarrow> bool" where
  "isSuccess job [] = False"
| "isSuccess job (status # statuses) =
     (if Status.Context status = Presubmit.Context job \<and> Status.State status = StatusSuccess
      then True
      else isSuccess job statuses)"

text \<open>The closure \<^verbatim>\<open>triggerWillHandle\<close>, with the variable \<^verbatim>\<open>filteredPresubmits\<close> it captures.\<close>

fun triggerWillHandle :: "Presubmit list \<Rightarrow> Presubmit \<Rightarrow> bool" where
  "triggerWillHandle [] p = False"
| "triggerWillHandle (presubmit # filteredPresubmits) p =
     (if Name p = Name presubmit \<and> Presubmit.Context p = Presubmit.Context presubmit then True
      else triggerWillHandle filteredPresubmits p)"

text \<open>The closures \<^verbatim>\<open>baseSHAGetter\<close> and \<^verbatim>\<open>headSHAGetter\<close>, with the variables they capture.\<close>

definition baseSHAGetter :: "githubClient \<Rightarrow> string \<Rightarrow> string \<Rightarrow> PullRequest \<Rightarrow> SHAGetter" where
  "baseSHAGetter gc org repo pr w =
     (case call_GetRef gc org repo (''heads/'' @ Base_Ref pr) w of
        (Inl err, w') \<Rightarrow> (Inl (Wrap ''failed to get baseSHA: '' err), w')
      | (Inr baseSHA, w') \<Rightarrow> (Inr baseSHA, w'))"

definition headSHAGetter :: "PullRequest \<Rightarrow> SHAGetter" where
  "headSHAGetter pr w = (Inr (Head_SHA pr), w)"

text \<open>
  The end of every branch of \<^verbatim>\<open>handle\<close> that answers with a comment:
  \<^verbatim>\<open>log.Warn(resp)\<close>, then
  \<^verbatim>\<open>return gc.CreateComment(org, repo, number, plugins.FormatResponseRaw(e.Body, e.HTMLURL, e.User.Login, resp))\<close>.
  The result of \<^verbatim>\<open>handle\<close> is the result of \<^verbatim>\<open>CreateComment\<close>.
\<close>

definition warn_and_comment ::
  "externals \<Rightarrow> githubClient \<Rightarrow> GenericCommentEvent \<Rightarrow> string \<Rightarrow> event list \<Rightarrow> error option \<times> event list" where
  "warn_and_comment x gc e resp w =
     call_CreateComment gc (Repo_Owner_Login e) (Repo_Name e) (Number e)
       (FormatResponseRaw x (Body e) (HTMLURL e) (User_Login e) resp)
       (log_Warn resp w)"

subsection \<open>handle\<close>

text \<open>The status that the loop writes for a job.\<close>

definition skipped :: "Presubmit \<Rightarrow> Status" where
  "skipped job =
     \<lparr>Status.State = StatusSuccess, Description = ''Skipped'', Status.Context = Presubmit.Context job\<rparr>"

text \<open>The loop \<^verbatim>\<open>for _, job := range presubmits\<close> of \<^verbatim>\<open>handle\<close>.\<close>

fun handle_loop ::
  "externals \<Rightarrow> githubClient \<Rightarrow> GenericCommentEvent \<Rightarrow> PullRequest \<Rightarrow> Presubmit list \<Rightarrow> Status list
     \<Rightarrow> Presubmit list \<Rightarrow> event list \<Rightarrow> error option \<times> event list" where
  "handle_loop x gc e pr filteredPresubmits statuses [] w = (None, w)"
| "handle_loop x gc e pr filteredPresubmits statuses (job # presubmits) w =
     (if \<not> statusExists job statuses \<or> isSuccess job statuses
      then handle_loop x gc e pr filteredPresubmits statuses presubmits w
      else if triggerWillHandle filteredPresubmits job
      then handle_loop x gc e pr filteredPresubmits statuses presubmits w
      else if ContextRequired job
      then handle_loop x gc e pr filteredPresubmits statuses presubmits w
      else
        (case call_CreateStatus gc (Repo_Owner_Login e) (Repo_Name e) (Head_SHA pr) (skipped job) w of
           (Some err, w') \<Rightarrow>
             warn_and_comment x gc e
               (''Cannot update PR status for context '' @ Presubmit.Context job @ '': '' @ Error err) w'
         | (None, w') \<Rightarrow> handle_loop x gc e pr filteredPresubmits statuses presubmits w'))"

definition handle ::
  "externals \<Rightarrow> githubClient \<Rightarrow> GenericCommentEvent \<Rightarrow> 'git Config \<Rightarrow> 'git \<Rightarrow> bool \<Rightarrow> event list
     \<Rightarrow> error option \<times> event list" where
  "handle x gc e c gitClient honorOkToTest w =
     (if \<not> IsPR e \<or> IssueState e \<noteq> ''open'' \<or> Action e \<noteq> GenericCommentActionCreated
      then (None, w)
      else if \<not> skipRe_MatchString (Body e)
      then (None, w)
      else
        let org = Repo_Owner_Login e; repo = Repo_Name e; number = Number e in
        (case call_GetPullRequest gc org repo number w of
           (Inl err, w1) \<Rightarrow>
             warn_and_comment x gc e
               (''Cannot get PR #'' @ Sprintf_d number @ '' in '' @ org @ ''/'' @ repo @ '': '' @ Error err) w1
         | (Inr pr, w1) \<Rightarrow>
             (case GetPresubmits c gitClient (org @ ''/'' @ repo) ''''
                     (baseSHAGetter gc org repo pr) (headSHAGetter pr) w1 of
                (Inl err, w2) \<Rightarrow> (Some (Wrap ''failed to get presubmits: '' err), w2)
              | (Inr presubmits, w2) \<Rightarrow>
                  (case call_GetCombinedStatus gc org repo (Head_SHA pr) w2 of
                     (Inl err, w3) \<Rightarrow>
                       warn_and_comment x gc e
                         (''Cannot get combined commit statuses for PR #'' @ Sprintf_d number
                            @ '' in '' @ org @ ''/'' @ repo @ '': '' @ Error err) w3
                   | (Inr combinedStatus, w3) \<Rightarrow>
                       if CombinedStatus.State combinedStatus = StatusSuccess
                       then (None, w3)
                       else
                         (case FilterPresubmits x honorOkToTest gc (Body e) pr presubmits w3 of
                            (Inl err, w4) \<Rightarrow>
                              warn_and_comment x gc e
                                (''Cannot get combined status for PR #'' @ Sprintf_d number
                                   @ '' in '' @ org @ ''/'' @ repo @ '': '' @ Error err) w4
                          | (Inr filteredPresubmits, w4) \<Rightarrow>
                              handle_loop x gc e pr filteredPresubmits
                                (Statuses combinedStatus) presubmits w4)))))"

text \<open>
  \<^verbatim>\<open>handleGenericComment\<close> calls \<^verbatim>\<open>handle\<close> with the client, the logger, the configuration
  and the git client of the agent, and with \<^verbatim>\<open>trigger.HonorOkToTest\<close> of the trigger
  configuration of the repository; it does nothing else.
\<close>

section \<open>Notions used to state the properties\<close>

text \<open>
  The lines of a text: the pieces between its line feeds. A text with \<open>n\<close> line feeds has
  \<open>n + 1\<close> lines.
\<close>

fun split_lines :: "string \<Rightarrow> string list" where
  "split_lines [] = [[]]"
| "split_lines (c # cs) =
     (if c = CHR 0x0A then [] # split_lines cs
      else (case split_lines cs of [] \<Rightarrow> [[c]] | l # ls \<Rightarrow> (c # l) # ls))"

text \<open>
  The command as the specification words it, to be compared with the pattern: the text is
  \<^verbatim>\<open>/skip\<close>, every letter in either case, followed by white space only (the characters of
  \<^verbatim>\<open>\s\<close>).
\<close>

fun spec_command_line :: "string \<Rightarrow> bool" where
  "spec_command_line (c0 # c1 # c2 # c3 # c4 # ws) =
     (c0 = CHR ''/'' \<and> (c1 = CHR ''s'' \<or> c1 = CHR ''S'') \<and> (c2 = CHR ''k'' \<or> c2 = CHR ''K'')
      \<and> (c3 = CHR ''i'' \<or> c3 = CHR ''I'') \<and> (c4 = CHR ''p'' \<or> c4 = CHR ''P'')
      \<and> list_all is_space ws)"
| "spec_command_line _ = False"

text \<open>All byte sequences that a literal part of a pattern matches.\<close>

fun spellings :: "string \<Rightarrow> string list" where
  "spellings [] = [[]]"
| "spellings (c # cs) =
     concat (map (\<lambda>enc. map (\<lambda>rest. enc @ rest) (spellings cs)) (fold_orbit c))"

text \<open>
  The jobs for which the loop of \<^verbatim>\<open>handle\<close> reaches \<^verbatim>\<open>gc.CreateStatus\<close>: none of its three
  \<^verbatim>\<open>continue\<close> statements applies.
\<close>

definition to_skip :: "Presubmit list \<Rightarrow> Status list \<Rightarrow> Presubmit \<Rightarrow> bool" where
  "to_skip filteredPresubmits statuses job \<longleftrightarrow>
     \<not> (\<not> statusExists job statuses \<or> isSuccess job statuses)
     \<and> \<not> triggerWillHandle filteredPresubmits job
     \<and> \<not> ContextRequired job"

text \<open>The event of the status write for a job.\<close>

definition status_written :: "GenericCommentEvent \<Rightarrow> PullRequest \<Rightarrow> Presubmit \<Rightarrow> event" where
  "status_written e pr job =
     EvCreateStatus (Repo_Owner_Login e) (Repo_Name e) (Head_SHA pr) (skipped job)"

section \<open>Concrete inputs\<close>

text \<open>A comment created by alice on the open pull request 7 of org/repo.\<close>

definition comment_with :: "string \<Rightarrow> GenericCommentEvent" where
  "comment_with body =
     \<lparr>IsPR = True, IssueState = ''open'', Action = ''created'', Body = body,
      HTMLURL = ''https://example.test/org/repo/pull/7#c1'', User_Login = ''alice'',
      Repo_Owner_Login = ''org'', Repo_Name = ''repo'', Number = 7\<rparr>"

definition pr_7 :: PullRequest where
  "pr_7 = \<lparr>Base_Ref = ''main'', Head_SHA = ''abc123''\<rparr>"

definition job_unit :: Presubmit where
  "job_unit = \<lparr>Name = ''unit'', Presubmit.Context = ''ci/unit'', ContextRequired = True\<rparr>"

definition job_lint :: Presubmit where
  "job_lint = \<lparr>Name = ''lint'', Presubmit.Context = ''ci/lint'', ContextRequired = False\<rparr>"

definition job_flaky :: Presubmit where
  "job_flaky = \<lparr>Name = ''flaky'', Presubmit.Context = ''ci/flaky'', ContextRequired = False\<rparr>"

definition job_docs :: Presubmit where
  "job_docs = \<lparr>Name = ''docs'', Presubmit.Context = ''ci/docs'', ContextRequired = False\<rparr>"

definition reported :: "string \<Rightarrow> string \<Rightarrow> Status" where
  "reported context state =
     \<lparr>Status.State = state, Description = ''reported'', Status.Context = context\<rparr>"

text \<open>
  A client whose answers do not depend on the trace: the pull request and the combined
  status are given, a status write fails as \<open>write\<close> tells, a comment is always posted.
\<close>

definition client_with ::
  "error + PullRequest \<Rightarrow> error + CombinedStatus \<Rightarrow> (Status \<Rightarrow> error option) \<Rightarrow> githubClient" where
  "client_with pr combined write =
     \<lparr>CreateComment = (\<lambda>w owner repo number comment. None),
      CreateStatus = (\<lambda>w org repo ref s. write s),
      GetPullRequest = (\<lambda>w org repo number. pr),
      GetCombinedStatus = (\<lambda>w org repo ref. combined),
      GetPullRequestChanges = (\<lambda>w org repo number. Inr []),
      GetRef = (\<lambda>w org repo ref. Inr ''base000'')\<rparr>"

text \<open>Status writes that all succeed, and a client whose comments all fail.\<close>

definition writes_succeed :: "Status \<Rightarrow> error option" where
  "writes_succeed = (\<lambda>s. None)"

definition without_comments :: "githubClient \<Rightarrow> githubClient" where
  "without_comments gc =
     gc\<lparr>CreateComment := (\<lambda>w owner repo number comment. Some (New ''no comment''))\<rparr>"

text \<open>The other packages: the trigger plugin answers \<open>filtered\<close> and calls nothing.\<close>

definition externals_with :: "error + Presubmit list \<Rightarrow> externals" where
  "externals_with filtered =
     \<lparr>FilterPresubmits = (\<lambda>honorOkToTest gc body pr presubmits w. (filtered, w)),
      FormatResponseRaw = (\<lambda>body url login reply. ''@'' @ login @ '': '' @ reply)\<rparr>"

definition config_with :: "error + Presubmit list \<Rightarrow> unit Config" where
  "config_with presubmits =
     \<lparr>GetPresubmits =
        (\<lambda>gitClient identifier baseBranch baseSHAGetter headSHAGetter w. (presubmits, w))\<rparr>"

text \<open>A comment of three lines: the second is the command, the third has a leading blank.\<close>

definition three_lines :: string where
  "three_lines = ''thanks'' @ [CHR 0x0A] @ ''/SkIp  '' @ [CHR 0x0D, CHR 0x0A] @ '' /skip''"

text \<open>
  Combined statuses: one that is not a success, with failing entries for three contexts
  (none for \<^verbatim>\<open>ci/flaky\<close>), and one whose overall state is \<^verbatim>\<open>success\<close> although an
  entry fails.
\<close>

definition combined_failing :: CombinedStatus where
  "combined_failing =
     \<lparr>CombinedStatus.State = ''failure'',
      Statuses = [reported ''ci/unit'' ''failure'', reported ''ci/lint'' ''failure'',
                  reported ''ci/docs'' ''error'']\<rparr>"

definition combined_success :: CombinedStatus where
  "combined_success =
     \<lparr>CombinedStatus.State = ''success'', Statuses = [reported ''ci/lint'' ''failure'']\<rparr>"

text \<open>Status writes that fail for the context \<^verbatim>\<open>ci/docs\<close> only.\<close>

definition failing_docs :: "Status \<Rightarrow> error option" where
  "failing_docs s = (if Status.Context s = ''ci/docs'' then Some (New ''HTTP 500'') else None)"

section \<open>Evaluation of the concrete inputs\<close>

lemmas inputs =
  comment_with_def client_with_def config_with_def externals_with_def pr_7_def
  combined_failing_def combined_success_def reported_def
  job_unit_def job_lint_def job_flaky_def job_docs_def failing_docs_def
  writes_succeed_def without_comments_def
  GenericCommentActionCreated_def StatusSuccess_def

lemmas pattern_eval = skipRe_MatchString_def match_here_def fold_orbit_def is_space_def

section \<open>The command pattern, line by line\<close>

lemma fold_orbit_heads: "distinct (map hd (fold_orbit c)) \<and> [] \<notin> set (fold_orbit c)"
  by (simp add: fold_orbit_def)

lemma find_distinct_heads:
  "distinct (map hd encs) \<Longrightarrow> [] \<notin> set encs \<Longrightarrow> enc \<in> set encs \<Longrightarrow>
   find (\<lambda>e. take (length e) (enc @ t) = e) encs = Some enc"
proof (induction encs)
  case Nil
  then show ?case by simp
next
  case (Cons e es)
  show ?case
  proof (cases "e = enc")
    case True
    then show ?thesis by simp
  next
    case False
    with Cons.prems have enc: "enc \<in> set es" and heads: "hd e \<noteq> hd enc"
      and "e \<noteq> []" and "enc \<noteq> []"
      by auto
    obtain a e' where e: "e = a # e'"
      using \<open>e \<noteq> []\<close> by (cases e) auto
    obtain b enc' where enc': "enc = b # enc'"
      using \<open>enc \<noteq> []\<close> by (cases enc) auto
    have "take (length e) (enc @ t) \<noteq> e"
      using heads unfolding e enc' by simp
    with Cons enc show ?thesis by simp
  qed
qed

lemma find_fold_orbit:
  "enc \<in> set (fold_orbit c) \<Longrightarrow>
   find (\<lambda>e. take (length e) (enc @ t) = e) (fold_orbit c) = Some enc"
  using fold_orbit_heads [of c] by (intro find_distinct_heads) simp_all

lemma match_literal_step:
  "enc \<in> set (fold_orbit c) \<Longrightarrow> match_literal (c # cs) (enc @ t) = match_literal cs t"
  using find_fold_orbit [of enc c t] by (simp del: take_append)

lemma in_spellings_Cons:
  "sp \<in> set (spellings (c # cs)) \<longleftrightarrow>
     (\<exists>enc\<in>set (fold_orbit c). \<exists>rest\<in>set (spellings cs). sp = enc @ rest)"
  by auto

lemma find_Some_decompose:
  "find (\<lambda>e. take (length e) t = e) encs = Some enc \<Longrightarrow>
   enc \<in> set encs \<and> t = enc @ drop (length enc) t"
proof -
  assume "find (\<lambda>e. take (length e) t = e) encs = Some enc"
  then have "enc \<in> set encs" and "take (length enc) t = enc"
    by (auto simp: find_Some_iff)
  then show ?thesis by (metis append_take_drop_id)
qed

lemma match_literal_Some_iff:
  "match_literal cs t = Some r \<longleftrightarrow> (\<exists>sp\<in>set (spellings cs). t = sp @ r)"
proof (induction cs arbitrary: t)
  case Nil
  then show ?case by auto
next
  case (Cons c cs)
  show ?case
  proof
    assume m: "match_literal (c # cs) t = Some r"
    then obtain enc where f: "find (\<lambda>e. take (length e) t = e) (fold_orbit c) = Some enc"
      and rest: "match_literal cs (drop (length enc) t) = Some r"
      by (auto split: option.splits)
    from find_Some_decompose [OF f] have enc: "enc \<in> set (fold_orbit c)"
      and t: "t = enc @ drop (length enc) t" by simp_all
    from rest Cons.IH obtain sp where sp: "sp \<in> set (spellings cs)"
      and d: "drop (length enc) t = sp @ r" by blast
    from t d have "t = (enc @ sp) @ r" by simp
    moreover from enc sp have "enc @ sp \<in> set (spellings (c # cs))"
      unfolding in_spellings_Cons by blast
    ultimately show "\<exists>sp\<in>set (spellings (c # cs)). t = sp @ r" by blast
  next
    assume "\<exists>sp\<in>set (spellings (c # cs)). t = sp @ r"
    then obtain enc rest where enc: "enc \<in> set (fold_orbit c)"
      and rest: "rest \<in> set (spellings cs)" and t: "t = enc @ rest @ r"
      unfolding in_spellings_Cons by auto
    from find_fold_orbit [OF enc, of "rest @ r"]
    have "find (\<lambda>e. take (length e) t = e) (fold_orbit c) = Some enc"
      using t by simp
    moreover have "match_literal cs (drop (length enc) t) = Some r"
      using Cons.IH [of "rest @ r"] rest t by auto
    ultimately show "match_literal (c # cs) t = Some r" by simp
  qed
qed

lemma space_then_eol_iff:
  "space_then_eol r \<longleftrightarrow> list_all is_space (takeWhile (\<lambda>c. c \<noteq> CHR 0x0A) r)"
  by (induction r) auto

lemma match_here_iff:
  "match_here t \<longleftrightarrow>
     (\<exists>sp\<in>set (spellings ''/skip''). \<exists>r. t = sp @ r
        \<and> list_all is_space (takeWhile (\<lambda>c. c \<noteq> CHR 0x0A) r))"
proof
  assume "match_here t"
  then obtain r where "match_literal ''/skip'' t = Some r" and "space_then_eol r"
    by (auto simp: match_here_def split: option.splits)
  then show "\<exists>sp\<in>set (spellings ''/skip''). \<exists>r. t = sp @ r
        \<and> list_all is_space (takeWhile (\<lambda>c. c \<noteq> CHR 0x0A) r)"
    unfolding match_literal_Some_iff space_then_eol_iff by blast
next
  assume "\<exists>sp\<in>set (spellings ''/skip''). \<exists>r. t = sp @ r
        \<and> list_all is_space (takeWhile (\<lambda>c. c \<noteq> CHR 0x0A) r)"
  then obtain sp r where "sp \<in> set (spellings ''/skip'')" "t = sp @ r" "space_then_eol r"
    unfolding space_then_eol_iff by blast
  then have "match_literal ''/skip'' t = Some r" "space_then_eol r"
    unfolding match_literal_Some_iff by blast+
  then show "match_here t" by (simp add: match_here_def)
qed

lemma spellings_skip:
  "sp \<in> set (spellings ''/skip'') \<Longrightarrow>
   CHR 0x0A \<notin> set sp \<and> sp \<noteq> [] \<and> CHR ''/'' \<notin> set (tl sp)"
  unfolding in_spellings_Cons by (auto simp: fold_orbit_def)

lemma split_lines_not_Nil: "split_lines t \<noteq> []"
  by (induction t) (auto split: list.splits)

lemma split_lines_Cons:
  "split_lines (c # cs) =
     (if c = CHR 0x0A then [] # split_lines cs
      else (c # hd (split_lines cs)) # tl (split_lines cs))"
  using split_lines_not_Nil [of cs] by (cases "split_lines cs") auto

declare split_lines.simps(2) [simp del]

lemma hd_split_lines: "hd (split_lines t) = takeWhile (\<lambda>c. c \<noteq> CHR 0x0A) t"
  by (induction t) (auto simp: split_lines_Cons)

lemma split_lines_no_LF: "l \<in> set (split_lines t) \<Longrightarrow> CHR 0x0A \<notin> set l"
proof (induction t arbitrary: l)
  case Nil
  then show ?case by simp
next
  case (Cons c cs)
  have "set (split_lines cs) = insert (hd (split_lines cs)) (set (tl (split_lines cs)))"
    using split_lines_not_Nil [of cs] by (cases "split_lines cs") auto
  with Cons show ?case
    by (auto simp: split_lines_Cons split: if_splits)
qed

lemma split_lines_single: "CHR 0x0A \<notin> set l \<Longrightarrow> split_lines l = [l]"
  by (induction l) (auto simp: split_lines_Cons)

lemma takeWhile_dropWhile_Nil: "takeWhile P (dropWhile P xs) = []"
  by (induction xs) auto

lemma match_here_first_line:
  "match_here t \<longleftrightarrow> match_here (takeWhile (\<lambda>c. c \<noteq> CHR 0x0A) t)"
proof
  assume "match_here t"
  then obtain sp r where sp: "sp \<in> set (spellings ''/skip'')" and t: "t = sp @ r"
    and ws: "list_all is_space (takeWhile (\<lambda>c. c \<noteq> CHR 0x0A) r)"
    unfolding match_here_iff by blast
  from sp have "CHR 0x0A \<notin> set sp" by (simp add: spellings_skip)
  then have "takeWhile (\<lambda>c. c \<noteq> CHR 0x0A) t = sp @ takeWhile (\<lambda>c. c \<noteq> CHR 0x0A) r"
    unfolding t by (intro takeWhile_append2) auto
  with sp ws show "match_here (takeWhile (\<lambda>c. c \<noteq> CHR 0x0A) t)"
    unfolding match_here_iff [of "takeWhile (\<lambda>c. c \<noteq> CHR 0x0A) t"]
    by (intro bexI [of _ sp] exI [of _ "takeWhile (\<lambda>c. c \<noteq> CHR 0x0A) r"]) simp_all
next
  let ?line = "takeWhile (\<lambda>c. c \<noteq> CHR 0x0A) t"
  let ?rest = "dropWhile (\<lambda>c. c \<noteq> CHR 0x0A) t"
  assume "match_here ?line"
  then obtain sp r where sp: "sp \<in> set (spellings ''/skip'')" and l: "?line = sp @ r"
    and ws: "list_all is_space (takeWhile (\<lambda>c. c \<noteq> CHR 0x0A) r)"
    unfolding match_here_iff by blast
  have "\<forall>c\<in>set ?line. c \<noteq> CHR 0x0A"
    by (auto dest: set_takeWhileD)
  then have r: "\<forall>c\<in>set r. c \<noteq> CHR 0x0A" unfolding l by simp
  then have "takeWhile (\<lambda>c. c \<noteq> CHR 0x0A) (r @ ?rest) = r"
    by (simp add: takeWhile_dropWhile_Nil)
  moreover from r have "takeWhile (\<lambda>c. c \<noteq> CHR 0x0A) r = r"
    by simp
  moreover have "t = sp @ (r @ ?rest)"
    using l takeWhile_dropWhile_id [of "\<lambda>c. c \<noteq> CHR 0x0A" t] by simp
  ultimately show "match_here t"
    using sp ws unfolding match_here_iff [of t] by metis
qed

lemma match_from_iff:
  "match_from bol t \<longleftrightarrow>
     (bol \<and> match_here (hd (split_lines t))) \<or> (\<exists>l\<in>set (tl (split_lines t)). match_here l)"
proof (induction t arbitrary: bol)
  case Nil
  then show ?case by simp
next
  case (Cons c cs)
  have here: "match_here (c # cs) \<longleftrightarrow> match_here (hd (split_lines (c # cs)))"
    unfolding hd_split_lines by (rule match_here_first_line)
  have lines: "set (split_lines cs) = insert (hd (split_lines cs)) (set (tl (split_lines cs)))"
    using split_lines_not_Nil [of cs] by (cases "split_lines cs") auto
  show ?case
  proof (cases "c = CHR 0x0A")
    case True
    then have "match_from bol (c # cs) \<longleftrightarrow>
        (bol \<and> match_here (hd (split_lines (c # cs)))) \<or> (\<exists>l\<in>set (split_lines cs). match_here l)"
      using here Cons.IH [of True] lines by auto
    with True show ?thesis by (simp add: split_lines_Cons)
  next
    case False
    then have "match_from bol (c # cs) \<longleftrightarrow>
        (bol \<and> match_here (hd (split_lines (c # cs)))) \<or> (\<exists>l\<in>set (tl (split_lines cs)). match_here l)"
      using here Cons.IH [of False] by auto
    with False show ?thesis by (simp add: split_lines_Cons)
  qed
qed

lemma skipRe_MatchString_iff:
  "skipRe_MatchString body \<longleftrightarrow> (\<exists>l\<in>set (split_lines body). match_here l)"
proof -
  have "set (split_lines body) = insert (hd (split_lines body)) (set (tl (split_lines body)))"
    using split_lines_not_Nil [of body] by (cases "split_lines body") auto
  then show ?thesis
    unfolding skipRe_MatchString_def match_from_iff by auto
qed

lemma skipRe_MatchString_line:
  "CHR 0x0A \<notin> set l \<Longrightarrow> skipRe_MatchString l \<longleftrightarrow> match_here l"
  by (simp add: skipRe_MatchString_iff split_lines_single)


lemma list_all_space_then_eol: "list_all is_space ws \<Longrightarrow> space_then_eol ws"
  by (induction ws) auto

lemma spec_command_line_match_here: "spec_command_line l \<Longrightarrow> match_here l"
proof (induction l rule: spec_command_line.induct)
  case (1 c0 c1 c2 c3 c4 ws)
  have o0: "[c0] \<in> set (fold_orbit CHR ''/'')" using 1 by (simp add: fold_orbit_def)
  have o1: "[c1] \<in> set (fold_orbit CHR ''s'')" using 1 by (auto simp: fold_orbit_def)
  have o2: "[c2] \<in> set (fold_orbit CHR ''k'')" using 1 by (auto simp: fold_orbit_def)
  have o3: "[c3] \<in> set (fold_orbit CHR ''i'')" using 1 by (auto simp: fold_orbit_def)
  have o4: "[c4] \<in> set (fold_orbit CHR ''p'')" using 1 by (auto simp: fold_orbit_def)
  have "match_literal ''/skip'' (c0 # c1 # c2 # c3 # c4 # ws)
          = match_literal ''skip'' (c1 # c2 # c3 # c4 # ws)"
    using match_literal_step [OF o0] by simp
  also have "\<dots> = match_literal ''kip'' (c2 # c3 # c4 # ws)"
    using match_literal_step [OF o1] by simp
  also have "\<dots> = match_literal ''ip'' (c3 # c4 # ws)"
    using match_literal_step [OF o2] by simp
  also have "\<dots> = match_literal ''p'' (c4 # ws)"
    using match_literal_step [OF o3] by simp
  also have "\<dots> = Some ws"
    using match_literal_step [OF o4, of "[]" ws] by simp
  finally have "match_literal ''/skip'' (c0 # c1 # c2 # c3 # c4 # ws) = Some ws" .
  moreover from 1 have "space_then_eol ws"
    by (simp add: list_all_space_then_eol)
  ultimately show ?case by (simp add: match_here_def)
qed simp_all

lemma leading_no_match:
  assumes "pre \<noteq> []" and "spec_command_line cmd" and "CHR 0x0A \<notin> set (pre @ cmd @ rest)"
  shows "\<not> match_here (pre @ cmd @ rest)"
proof
  assume "match_here (pre @ cmd @ rest)"
  then obtain sp r where sp: "sp \<in> set (spellings ''/skip'')" and l: "pre @ cmd @ rest = sp @ r"
    and ws: "list_all is_space (takeWhile (\<lambda>c. c \<noteq> CHR 0x0A) r)"
    unfolding match_here_iff by blast
  from assms(3) l have "CHR 0x0A \<notin> set r"
    by (metis Un_iff set_append)
  then have "\<forall>c\<in>set r. c \<noteq> CHR 0x0A" by blast
  then have "takeWhile (\<lambda>c. c \<noteq> CHR 0x0A) r = r"
    by simp
  with ws have r: "\<forall>c\<in>set r. is_space c" by (simp add: list_all_iff)
  from assms(2) obtain cmd' where "cmd = CHR ''/'' # cmd'"
    by (cases cmd rule: spec_command_line.cases) simp_all
  with assms(1) have "CHR ''/'' \<in> set (tl (pre @ cmd @ rest))"
    by (cases pre) simp_all
  moreover from sp have "sp \<noteq> []" and nosl: "CHR ''/'' \<notin> set (tl sp)"
    by (simp_all add: spellings_skip)
  then have "tl (sp @ r) = tl sp @ r" by simp
  ultimately have "CHR ''/'' \<in> set (tl sp) \<union> set r"
    using l by simp
  with nosl r have "is_space CHR ''/''" by blast
  then show False by (simp add: is_space_def)
qed

text \<open>
  C10. The pattern works line by line. A comment body is admitted exactly when one of its
  lines, taken alone, is admitted; a line that is the command as the specification words it
  (\<^verbatim>\<open>/skip\<close> in any case, then white space only) is admitted, wherever it stands in the
  body; and a line with at least one character before the command is not admitted.
\<close>

theorem skipRe_multi_line:
  "(skipRe_MatchString body \<longleftrightarrow> (\<exists>l\<in>set (split_lines body). skipRe_MatchString l))
   \<and> (\<forall>l\<in>set (split_lines body). spec_command_line l \<longrightarrow> skipRe_MatchString l)
   \<and> (\<forall>l\<in>set (split_lines body). \<forall>pre cmd rest.
         l = pre @ cmd @ rest \<and> pre \<noteq> [] \<and> spec_command_line cmd \<longrightarrow> \<not> skipRe_MatchString l)"
proof (intro conjI ballI allI impI)
  show "skipRe_MatchString body \<longleftrightarrow> (\<exists>l\<in>set (split_lines body). skipRe_MatchString l)"
    using split_lines_no_LF [of _ body]
    by (auto simp: skipRe_MatchString_iff [of body] skipRe_MatchString_line)
next
  fix l assume "l \<in> set (split_lines body)" and "spec_command_line l"
  then show "skipRe_MatchString l"
    by (simp add: split_lines_no_LF skipRe_MatchString_line spec_command_line_match_here)
next
  fix l pre cmd rest
  assume l: "l \<in> set (split_lines body)"
    and "l = pre @ cmd @ rest \<and> pre \<noteq> [] \<and> spec_command_line cmd"
  then have "\<not> match_here l"
    using leading_no_match [of pre cmd rest] split_lines_no_LF [of l body] by blast
  with l show "\<not> skipRe_MatchString l"
    by (simp add: split_lines_no_LF skipRe_MatchString_line)
qed

theorem skipRe_multi_line_witness:
  "split_lines three_lines = [''thanks'', ''/SkIp  '' @ [CHR 0x0D], '' /skip'']
   \<and> spec_command_line (''/SkIp  '' @ [CHR 0x0D])
   \<and> skipRe_MatchString three_lines
   \<and> \<not> skipRe_MatchString '' /skip''"
proof -
  note pattern = skipRe_multi_line [of three_lines]
  have lines: "split_lines three_lines = [''thanks'', ''/SkIp  '' @ [CHR 0x0D], '' /skip'']"
    by (simp add: three_lines_def split_lines.simps)
  have second: "''/SkIp  '' @ [CHR 0x0D] \<in> set (split_lines three_lines)"
    and third: "'' /skip'' \<in> set (split_lines three_lines)"
    unfolding lines by simp_all
  have cmd: "spec_command_line (''/SkIp  '' @ [CHR 0x0D])"
    by (simp add: is_space_def)
  have lead: "'' /skip'' = '' '' @ ''/skip'' @ [] \<and> '' '' \<noteq> [] \<and> spec_command_line ''/skip''"
    by simp
  from pattern second cmd have "skipRe_MatchString (''/SkIp  '' @ [CHR 0x0D])"
    by blast
  with pattern second have admitted: "skipRe_MatchString three_lines"
    by blast
  from pattern third lead have "\<not> skipRe_MatchString '' /skip''"
    by blast
  with lines cmd admitted show ?thesis
    by blast
qed

text \<open>
  Under the flag \<^verbatim>\<open>i\<close> the letters also match the long s and the Kelvin sign, so the
  lines admitted are a few more than those of \<open>spec_command_line\<close>.
\<close>

lemma skipRe_simple_fold:
  "skipRe_MatchString
     [CHR ''/'', CHR 0xC5, CHR 0xBF, CHR 0xE2, CHR 0x84, CHR 0xAA, CHR ''I'', CHR ''p'']"
  by (simp add: skipRe_MatchString_def match_here_def fold_orbit_def)

section \<open>The command gate\<close>

text \<open>
  C8. An event that is not a comment created on an open pull request, or whose body does not
  match the command pattern, makes \<^verbatim>\<open>handle\<close> return \<^verbatim>\<open>nil\<close> with the trace as it was:
  no fetch, no comment, no status write, no warning. So \<^verbatim>\<open>handle\<close> does anything only if
  all four conditions hold.
\<close>

theorem handle_gate:
  "\<not> (IsPR e \<and> IssueState e = ''open'' \<and> Action e = GenericCommentActionCreated
        \<and> skipRe_MatchString (Body e))
   \<Longrightarrow> handle x gc e c gitClient honorOkToTest w = (None, w)"
  by (auto simp: handle_def)

theorem handle_gate_witness:
  "\<not> skipRe_MatchString ''/skipper''
   \<and> handle (externals_with (Inr [])) (client_with (Inr pr_7) (Inl (New ''unused'')) writes_succeed)
        (comment_with ''/skipper'') (config_with (Inr [])) () True [] = (None, [])"
  using handle_gate [of "comment_with ''/skipper''" "externals_with (Inr [])"
      "client_with (Inr pr_7) (Inl (New ''unused'')) writes_succeed" "config_with (Inr [])" "()" True "[]"]
  by (simp add: inputs pattern_eval)

section \<open>The loop of handle\<close>

text \<open>The three helpers, as statements about the status entries and the filtered jobs.\<close>

lemma statusExists_iff:
  "statusExists job statuses \<longleftrightarrow> (\<exists>s\<in>set statuses. Status.Context s = Presubmit.Context job)"
  by (induction statuses) auto

lemma isSuccess_iff:
  "isSuccess job statuses \<longleftrightarrow>
     (\<exists>s\<in>set statuses. Status.Context s = Presubmit.Context job \<and> Status.State s = StatusSuccess)"
  by (induction statuses) auto

lemma triggerWillHandle_iff:
  "triggerWillHandle filteredPresubmits p \<longleftrightarrow>
     (Name p, Presubmit.Context p) \<in> (\<lambda>q. (Name q, Presubmit.Context q)) ` set filteredPresubmits"
  by (induction filteredPresubmits) auto

text \<open>One round of the loop, for a job that is passed over and for a job that is written.\<close>

lemma handle_loop_Cons_skip:
  "\<not> to_skip filteredPresubmits statuses job \<Longrightarrow>
   handle_loop x gc e pr filteredPresubmits statuses (job # presubmits) w
     = handle_loop x gc e pr filteredPresubmits statuses presubmits w"
  by (auto simp: to_skip_def)

lemma handle_loop_Cons_write:
  "to_skip filteredPresubmits statuses job \<Longrightarrow>
   handle_loop x gc e pr filteredPresubmits statuses (job # presubmits) w
     = (case CreateStatus gc w (Repo_Owner_Login e) (Repo_Name e) (Head_SHA pr) (skipped job) of
          Some err \<Rightarrow>
            warn_and_comment x gc e
              (''Cannot update PR status for context '' @ Presubmit.Context job @ '': '' @ Error err)
              (w @ [status_written e pr job])
        | None \<Rightarrow>
            handle_loop x gc e pr filteredPresubmits statuses presubmits (w @ [status_written e pr job]))"
  by (auto simp: to_skip_def call_CreateStatus_def status_written_def split: option.splits)

text \<open>
  A job that is passed over leaves no mark: the loop over a configuration with the job does
  exactly what it does over the configuration without it, the same calls with the same
  answers and the same result.
\<close>

lemma handle_loop_ignores:
  "\<not> to_skip filteredPresubmits statuses job \<Longrightarrow>
   handle_loop x gc e pr filteredPresubmits statuses (before @ job # after) w
     = handle_loop x gc e pr filteredPresubmits statuses (before @ after) w"
proof (induction before arbitrary: w)
  case Nil
  then show ?case by (simp add: handle_loop_Cons_skip del: handle_loop.simps)
next
  case (Cons first before)
  show ?case
  proof (cases "to_skip filteredPresubmits statuses first")
    case True
    with Cons show ?thesis
      by (simp add: handle_loop_Cons_write del: handle_loop.simps split: option.splits)
  next
    case False
    with Cons show ?thesis
      by (simp add: handle_loop_Cons_skip del: handle_loop.simps)
  qed
qed

text \<open>When no status write fails, the loop writes one status for every job to skip, in order.\<close>

lemma handle_loop_all_written:
  "\<forall>w' s. CreateStatus gc w' (Repo_Owner_Login e) (Repo_Name e) (Head_SHA pr) s = None \<Longrightarrow>
   handle_loop x gc e pr filteredPresubmits statuses presubmits w
     = (None, w @ map (status_written e pr) (filter (to_skip filteredPresubmits statuses) presubmits))"
proof (induction presubmits arbitrary: w)
  case Nil
  then show ?case by simp
next
  case (Cons job presubmits)
  then show ?case
    by (cases "to_skip filteredPresubmits statuses job")
       (simp_all add: handle_loop_Cons_write handle_loop_Cons_skip del: handle_loop.simps)
qed

text \<open>
  When the write for the job number \<open>k\<close> of those to skip is the first that fails, the loop
  ends with the warning and the comment for this job, after the writes up to this one.
\<close>

lemma handle_loop_first_failure:
  "k < length (filter (to_skip filteredPresubmits statuses) presubmits) \<Longrightarrow>
   \<forall>i<k. CreateStatus gc
            (w @ map (status_written e pr) (take i (filter (to_skip filteredPresubmits statuses) presubmits)))
            (Repo_Owner_Login e) (Repo_Name e) (Head_SHA pr)
            (skipped (filter (to_skip filteredPresubmits statuses) presubmits ! i)) = None \<Longrightarrow>
   CreateStatus gc
     (w @ map (status_written e pr) (take k (filter (to_skip filteredPresubmits statuses) presubmits)))
     (Repo_Owner_Login e) (Repo_Name e) (Head_SHA pr)
     (skipped (filter (to_skip filteredPresubmits statuses) presubmits ! k)) = Some err \<Longrightarrow>
   handle_loop x gc e pr filteredPresubmits statuses presubmits w
     = warn_and_comment x gc e
         (''Cannot update PR status for context ''
            @ Presubmit.Context (filter (to_skip filteredPresubmits statuses) presubmits ! k)
            @ '': '' @ Error err)
         (w @ map (status_written e pr)
                (take (Suc k) (filter (to_skip filteredPresubmits statuses) presubmits)))"
proof (induction presubmits arbitrary: w k)
  case Nil
  then show ?case by simp
next
  case (Cons job presubmits)
  let ?todo = "filter (to_skip filteredPresubmits statuses) presubmits"
  show ?case
  proof (cases "to_skip filteredPresubmits statuses job")
    case False
    with Cons.prems Cons.IH [of k w] show ?thesis
      by (simp add: handle_loop_Cons_skip del: handle_loop.simps)
  next
    case True
    show ?thesis
    proof (cases k)
      case 0
      with True Cons.prems show ?thesis
        by (simp add: handle_loop_Cons_write del: handle_loop.simps)
    next
      case (Suc k')
      from Cons.prems(2) Suc True
      have first: "CreateStatus gc w (Repo_Owner_Login e) (Repo_Name e) (Head_SHA pr) (skipped job) = None"
        by (auto dest: spec [of _ 0])
      have len: "k' < length ?todo"
        using Cons.prems(1) Suc True by simp
      have before: "\<forall>i<k'. CreateStatus gc
            ((w @ [status_written e pr job]) @ map (status_written e pr) (take i ?todo))
            (Repo_Owner_Login e) (Repo_Name e) (Head_SHA pr) (skipped (?todo ! i)) = None"
      proof (intro allI impI)
        fix i assume "i < k'"
        then have "Suc i < k" using Suc by simp
        with Cons.prems(2) True show "CreateStatus gc
            ((w @ [status_written e pr job]) @ map (status_written e pr) (take i ?todo))
            (Repo_Owner_Login e) (Repo_Name e) (Head_SHA pr) (skipped (?todo ! i)) = None"
          by (auto dest: spec [of _ "Suc i"])
      qed
      have failing: "CreateStatus gc
            ((w @ [status_written e pr job]) @ map (status_written e pr) (take k' ?todo))
            (Repo_Owner_Login e) (Repo_Name e) (Head_SHA pr) (skipped (?todo ! k')) = Some err"
        using Cons.prems(3) Suc True by simp
      from Cons.IH [OF len before failing] first True Suc show ?thesis
        by (simp add: handle_loop_Cons_write del: handle_loop.simps)
    qed
  qed
qed

section \<open>The jobs that are never skipped\<close>

text \<open>
  C2. A required check never gets a skip: wherever it stands in the configuration, the loop
  of \<^verbatim>\<open>handle\<close> does with it exactly what it does without it (the same calls of the client
  and the same result), whatever the status entries and the jobs of the trigger plugin are;
  so also when its status is a failure and the trigger plugin does not handle it.
\<close>

theorem required_never_skipped:
  "ContextRequired job \<Longrightarrow>
   handle_loop x gc e pr filteredPresubmits statuses (before @ job # after) w
     = handle_loop x gc e pr filteredPresubmits statuses (before @ after) w"
  by (rule handle_loop_ignores) (simp add: to_skip_def)

theorem required_never_skipped_witness:
  "ContextRequired job_unit
   \<and> statusExists job_unit (Statuses combined_failing)
   \<and> \<not> isSuccess job_unit (Statuses combined_failing)
   \<and> \<not> triggerWillHandle [] job_unit
   \<and> handle_loop (externals_with (Inr [])) (client_with (Inr pr_7) (Inr combined_failing) writes_succeed)
        (comment_with ''/skip'') pr_7 [] (Statuses combined_failing) ([job_lint] @ job_unit # [job_docs]) []
      = (None,
         [EvCreateStatus ''org'' ''repo'' ''abc123''
            \<lparr>Status.State = ''success'', Description = ''Skipped'', Status.Context = ''ci/lint''\<rparr>,
          EvCreateStatus ''org'' ''repo'' ''abc123''
            \<lparr>Status.State = ''success'', Description = ''Skipped'', Status.Context = ''ci/docs''\<rparr>])"
  using required_never_skipped [where job = job_unit and x = "externals_with (Inr [])"
      and gc = "client_with (Inr pr_7) (Inr combined_failing) writes_succeed"
      and e = "comment_with ''/skip''" and pr = pr_7 and filteredPresubmits = "[]"
      and statuses = "Statuses combined_failing" and before = "[job_lint]" and after = "[job_docs]"
      and w = "[]"]
  by (simp add: inputs call_CreateStatus_def skipped_def)

text \<open>
  C3. A check whose pair of name and context is among the jobs that the trigger plugin will
  handle never gets a skip: the loop does with it exactly what it does without it, also when
  the check is not required and its status is a failure.
\<close>

theorem overlap_never_skipped:
  "(Name job, Presubmit.Context job) \<in> (\<lambda>p. (Name p, Presubmit.Context p)) ` set filteredPresubmits \<Longrightarrow>
   handle_loop x gc e pr filteredPresubmits statuses (before @ job # after) w
     = handle_loop x gc e pr filteredPresubmits statuses (before @ after) w"
  by (rule handle_loop_ignores) (simp add: to_skip_def triggerWillHandle_iff)

theorem overlap_never_skipped_witness:
  "(Name job_lint, Presubmit.Context job_lint)
     \<in> (\<lambda>p. (Name p, Presubmit.Context p)) ` set [job_lint]
   \<and> \<not> ContextRequired job_lint
   \<and> statusExists job_lint (Statuses combined_failing)
   \<and> \<not> isSuccess job_lint (Statuses combined_failing)
   \<and> handle_loop (externals_with (Inr [job_lint]))
        (client_with (Inr pr_7) (Inr combined_failing) writes_succeed)
        (comment_with ''/skip'') pr_7 [job_lint] (Statuses combined_failing)
        ([job_unit] @ job_lint # []) []
      = (None, [])"
  using overlap_never_skipped [where job = job_lint and x = "externals_with (Inr [job_lint])"
      and gc = "client_with (Inr pr_7) (Inr combined_failing) writes_succeed"
      and e = "comment_with ''/skip''" and pr = pr_7 and filteredPresubmits = "[job_lint]"
      and statuses = "Statuses combined_failing" and before = "[job_unit]" and after = "[]"
      and w = "[]"]
  by (simp add: inputs call_CreateStatus_def skipped_def)

text \<open>
  C5. A check whose context has no status entry at all never gets a skip: the loop does with
  it exactly what it does without it, also when the check is not required and the trigger
  plugin does not handle it.
\<close>

theorem no_status_never_skipped:
  "\<forall>s\<in>set statuses. Status.Context s \<noteq> Presubmit.Context job \<Longrightarrow>
   handle_loop x gc e pr filteredPresubmits statuses (before @ job # after) w
     = handle_loop x gc e pr filteredPresubmits statuses (before @ after) w"
  by (rule handle_loop_ignores) (auto simp: to_skip_def statusExists_iff)

theorem no_status_never_skipped_witness:
  "\<not> statusExists job_flaky (Statuses combined_failing)
   \<and> \<not> ContextRequired job_flaky
   \<and> \<not> triggerWillHandle [] job_flaky
   \<and> handle_loop (externals_with (Inr [])) (client_with (Inr pr_7) (Inr combined_failing) writes_succeed)
        (comment_with ''/skip'') pr_7 [] (Statuses combined_failing) ([] @ job_flaky # [job_docs]) []
      = (None,
         [EvCreateStatus ''org'' ''repo'' ''abc123''
            \<lparr>Status.State = ''success'', Description = ''Skipped'', Status.Context = ''ci/docs''\<rparr>])"
  using no_status_never_skipped [where job = job_flaky and x = "externals_with (Inr [])"
      and gc = "client_with (Inr pr_7) (Inr combined_failing) writes_succeed"
      and e = "comment_with ''/skip''" and pr = pr_7 and filteredPresubmits = "[]"
      and statuses = "Statuses combined_failing" and before = "[]" and after = "[job_docs]"
      and w = "[]"]
  by (simp add: inputs call_CreateStatus_def skipped_def)

text \<open>
  C9. When some status entry for the context of a check has the state \<^verbatim>\<open>success\<close>, the check
  counts as successful (\<open>isSuccess\<close>) and gets no skip, whatever the other entries for the
  same context say and wherever they stand in the list: any entry decides, not the last one.
\<close>

theorem any_success_entry_wins:
  "s \<in> set statuses \<Longrightarrow> Status.Context s = Presubmit.Context job \<Longrightarrow>
   Status.State s = StatusSuccess \<Longrightarrow>
   isSuccess job statuses
   \<and> handle_loop x gc e pr filteredPresubmits statuses (before @ job # after) w
       = handle_loop x gc e pr filteredPresubmits statuses (before @ after) w"
proof -
  assume "s \<in> set statuses" and "Status.Context s = Presubmit.Context job"
    and "Status.State s = StatusSuccess"
  then have "isSuccess job statuses"
    unfolding isSuccess_iff by blast
  then show ?thesis
    by (simp add: handle_loop_ignores to_skip_def del: handle_loop.simps)
qed

theorem any_success_entry_wins_witness:
  "isSuccess job_lint [reported ''ci/lint'' ''success'', reported ''ci/lint'' ''failure'']
   \<and> handle_loop (externals_with (Inr [])) (client_with (Inr pr_7) (Inr combined_failing) writes_succeed)
        (comment_with ''/skip'') pr_7 []
        [reported ''ci/lint'' ''success'', reported ''ci/lint'' ''failure''] ([] @ job_lint # []) []
      = (None, [])
   \<and> isSuccess job_lint [reported ''ci/lint'' ''failure'', reported ''ci/lint'' ''success'']
   \<and> handle_loop (externals_with (Inr [])) (client_with (Inr pr_7) (Inr combined_failing) writes_succeed)
        (comment_with ''/skip'') pr_7 []
        [reported ''ci/lint'' ''failure'', reported ''ci/lint'' ''success''] ([] @ job_lint # []) []
      = (None, [])"
  using any_success_entry_wins [where s = "reported ''ci/lint'' ''success''" and job = job_lint
      and statuses = "[reported ''ci/lint'' ''success'', reported ''ci/lint'' ''failure'']"
      and x = "externals_with (Inr [])"
      and gc = "client_with (Inr pr_7) (Inr combined_failing) writes_succeed"
      and e = "comment_with ''/skip''" and pr = pr_7 and filteredPresubmits = "[]"
      and before = "[]" and after = "[]" and w = "[]"]
    any_success_entry_wins [where s = "reported ''ci/lint'' ''success''" and job = job_lint
      and statuses = "[reported ''ci/lint'' ''failure'', reported ''ci/lint'' ''success'']"
      and x = "externals_with (Inr [])"
      and gc = "client_with (Inr pr_7) (Inr combined_failing) writes_succeed"
      and e = "comment_with ''/skip''" and pr = pr_7 and filteredPresubmits = "[]"
      and before = "[]" and after = "[]" and w = "[]"]
  by (simp add: inputs)

section \<open>handle as a whole\<close>

text \<open>What the end of a branch that answers with a comment does.\<close>

lemma warn_and_comment_eq:
  "warn_and_comment x gc e resp w =
     (CreateComment gc (w @ [EvLogWarn resp]) (Repo_Owner_Login e) (Repo_Name e) (Number e)
        (FormatResponseRaw x (Body e) (HTMLURL e) (User_Login e) resp),
      w @ [EvLogWarn resp,
           EvCreateComment (Repo_Owner_Login e) (Repo_Name e) (Number e)
             (FormatResponseRaw x (Body e) (HTMLURL e) (User_Login e) resp)])"
  by (simp add: warn_and_comment_def call_CreateComment_def log_Warn_def)

text \<open>
  When the gate admits the event and every fetch succeeds with a combined status that is not
  a success, \<^verbatim>\<open>handle\<close> is its loop.
\<close>

lemma handle_reaches_loop:
  assumes "IsPR e" and "IssueState e = ''open''" and "Action e = GenericCommentActionCreated"
    and "skipRe_MatchString (Body e)"
    and "GetPullRequest gc w (Repo_Owner_Login e) (Repo_Name e) (Number e) = Inr pr"
    and "GetPresubmits c gitClient (Repo_Owner_Login e @ ''/'' @ Repo_Name e) ''''
           (baseSHAGetter gc (Repo_Owner_Login e) (Repo_Name e) pr) (headSHAGetter pr)
           (w @ [EvGetPullRequest (Repo_Owner_Login e) (Repo_Name e) (Number e)])
         = (Inr presubmits, w2)"
    and "GetCombinedStatus gc w2 (Repo_Owner_Login e) (Repo_Name e) (Head_SHA pr) = Inr combinedStatus"
    and "CombinedStatus.State combinedStatus \<noteq> StatusSuccess"
    and "FilterPresubmits x honorOkToTest gc (Body e) pr presubmits
           (w2 @ [EvGetCombinedStatus (Repo_Owner_Login e) (Repo_Name e) (Head_SHA pr)])
         = (Inr filteredPresubmits, w4)"
  shows "handle x gc e c gitClient honorOkToTest w
           = handle_loop x gc e pr filteredPresubmits (Statuses combinedStatus) presubmits w4"
  using assms
  by (simp add: handle_def call_GetPullRequest_def call_GetCombinedStatus_def
        del: handle_loop.simps)

text \<open>
  C1. Let the gate admit the event, let every fetch succeed, let the overall state not be
  \<^verbatim>\<open>success\<close>, and let no status write fail. Then \<^verbatim>\<open>handle\<close> returns \<^verbatim>\<open>nil\<close> and, after
  the fetches, does nothing but write one status for each configured check that has a
  status entry for its context, has no entry for its context with the state \<^verbatim>\<open>success\<close>, is
  not, as a pair of name and context, among the jobs the trigger plugin handles, and is not
  required. The writes come in the order of the configuration, and each carries the context
  of its check, the state \<^verbatim>\<open>success\<close> and the description \<^verbatim>\<open>Skipped\<close>.
\<close>

theorem handle_skips:
  assumes "IsPR e" and "IssueState e = ''open''" and "Action e = GenericCommentActionCreated"
    and "skipRe_MatchString (Body e)"
    and "GetPullRequest gc w (Repo_Owner_Login e) (Repo_Name e) (Number e) = Inr pr"
    and "GetPresubmits c gitClient (Repo_Owner_Login e @ ''/'' @ Repo_Name e) ''''
           (baseSHAGetter gc (Repo_Owner_Login e) (Repo_Name e) pr) (headSHAGetter pr)
           (w @ [EvGetPullRequest (Repo_Owner_Login e) (Repo_Name e) (Number e)])
         = (Inr presubmits, w2)"
    and "GetCombinedStatus gc w2 (Repo_Owner_Login e) (Repo_Name e) (Head_SHA pr) = Inr combinedStatus"
    and "CombinedStatus.State combinedStatus \<noteq> StatusSuccess"
    and "FilterPresubmits x honorOkToTest gc (Body e) pr presubmits
           (w2 @ [EvGetCombinedStatus (Repo_Owner_Login e) (Repo_Name e) (Head_SHA pr)])
         = (Inr filteredPresubmits, w4)"
    and "\<forall>w' s. CreateStatus gc w' (Repo_Owner_Login e) (Repo_Name e) (Head_SHA pr) s = None"
  shows "handle x gc e c gitClient honorOkToTest w =
     (None,
      w4 @ map (\<lambda>job. EvCreateStatus (Repo_Owner_Login e) (Repo_Name e) (Head_SHA pr)
                  \<lparr>Status.State = StatusSuccess, Description = ''Skipped'',
                   Status.Context = Presubmit.Context job\<rparr>)
             (filter (\<lambda>job.
                  (\<exists>s\<in>set (Statuses combinedStatus). Status.Context s = Presubmit.Context job)
                  \<and> \<not> (\<exists>s\<in>set (Statuses combinedStatus).
                          Status.Context s = Presubmit.Context job \<and> Status.State s = StatusSuccess)
                  \<and> (Name job, Presubmit.Context job)
                       \<notin> (\<lambda>p. (Name p, Presubmit.Context p)) ` set filteredPresubmits
                  \<and> \<not> ContextRequired job)
                presubmits))"
proof -
  have "handle x gc e c gitClient honorOkToTest w
          = handle_loop x gc e pr filteredPresubmits (Statuses combinedStatus) presubmits w4"
    using assms(1-9) by (rule handle_reaches_loop)
  also have "\<dots> = (None, w4 @ map (status_written e pr)
      (filter (to_skip filteredPresubmits (Statuses combinedStatus)) presubmits))"
    using assms(10) by (rule handle_loop_all_written)
  finally show ?thesis
    by (simp add: to_skip_def [abs_def] status_written_def [abs_def] skipped_def
          statusExists_iff isSuccess_iff triggerWillHandle_iff)
qed

theorem handle_skips_witness:
  "handle (externals_with (Inr [])) (client_with (Inr pr_7) (Inr combined_failing) writes_succeed)
     (comment_with ''/skip'') (config_with (Inr [job_unit, job_lint, job_flaky, job_docs])) () True []
   = (None,
      [EvGetPullRequest ''org'' ''repo'' 7,
       EvGetCombinedStatus ''org'' ''repo'' ''abc123'',
       EvCreateStatus ''org'' ''repo'' ''abc123''
         \<lparr>Status.State = ''success'', Description = ''Skipped'', Status.Context = ''ci/lint''\<rparr>,
       EvCreateStatus ''org'' ''repo'' ''abc123''
         \<lparr>Status.State = ''success'', Description = ''Skipped'', Status.Context = ''ci/docs''\<rparr>])"
  using handle_skips [where e = "comment_with ''/skip''"
      and gc = "client_with (Inr pr_7) (Inr combined_failing) writes_succeed"
      and w = "[]" and pr = pr_7
      and c = "config_with (Inr [job_unit, job_lint, job_flaky, job_docs])" and gitClient = "()"
      and presubmits = "[job_unit, job_lint, job_flaky, job_docs]"
      and ?w2.0 = "[EvGetPullRequest ''org'' ''repo'' 7]"
      and combinedStatus = combined_failing and x = "externals_with (Inr [])"
      and honorOkToTest = True and filteredPresubmits = "[]"
      and ?w4.0 = "[EvGetPullRequest ''org'' ''repo'' 7, EvGetCombinedStatus ''org'' ''repo'' ''abc123'']"]
  by (simp add: inputs pattern_eval)

text \<open>
  C4. When the overall state of the combined status is \<^verbatim>\<open>success\<close>, \<^verbatim>\<open>handle\<close> returns
  \<^verbatim>\<open>nil\<close> right after fetching the combined status: no status write and no other call
  follows, whatever the configured checks and the status entries are; the jobs of the
  trigger plugin are not even asked for.
\<close>

theorem success_short_circuit:
  assumes "IsPR e" and "IssueState e = ''open''" and "Action e = GenericCommentActionCreated"
    and "skipRe_MatchString (Body e)"
    and "GetPullRequest gc w (Repo_Owner_Login e) (Repo_Name e) (Number e) = Inr pr"
    and "GetPresubmits c gitClient (Repo_Owner_Login e @ ''/'' @ Repo_Name e) ''''
           (baseSHAGetter gc (Repo_Owner_Login e) (Repo_Name e) pr) (headSHAGetter pr)
           (w @ [EvGetPullRequest (Repo_Owner_Login e) (Repo_Name e) (Number e)])
         = (Inr presubmits, w2)"
    and "GetCombinedStatus gc w2 (Repo_Owner_Login e) (Repo_Name e) (Head_SHA pr) = Inr combinedStatus"
    and "CombinedStatus.State combinedStatus = StatusSuccess"
  shows "handle x gc e c gitClient honorOkToTest w
           = (None, w2 @ [EvGetCombinedStatus (Repo_Owner_Login e) (Repo_Name e) (Head_SHA pr)])"
  using assms
  by (simp add: handle_def call_GetPullRequest_def call_GetCombinedStatus_def)

theorem success_short_circuit_witness:
  "handle (externals_with (Inr [])) (client_with (Inr pr_7) (Inr combined_success) writes_succeed)
     (comment_with ''/skip'') (config_with (Inr [job_lint])) () True []
   = (None, [EvGetPullRequest ''org'' ''repo'' 7, EvGetCombinedStatus ''org'' ''repo'' ''abc123''])"
  using success_short_circuit [where e = "comment_with ''/skip''"
      and gc = "client_with (Inr pr_7) (Inr combined_success) writes_succeed"
      and w = "[]" and pr = pr_7 and c = "config_with (Inr [job_lint])" and gitClient = "()"
      and presubmits = "[job_lint]" and ?w2.0 = "[EvGetPullRequest ''org'' ''repo'' 7]"
      and combinedStatus = combined_success and x = "externals_with (Inr [])"
      and honorOkToTest = True]
  by (simp add: inputs pattern_eval)

section \<open>A status write that fails\<close>

text \<open>
  C6. Let \<open>todo\<close> be the jobs to skip, in order, and let the write for \<open>todo ! k\<close> be the first
  that fails, with the error \<open>err\<close>. Then the loop, and with it \<^verbatim>\<open>handle\<close>, ends there: the
  trace is extended by the writes for the first \<open>k + 1\<close> jobs of \<open>todo\<close> (those that
  succeeded, which stay as they are, and the failing one), the warning, and one comment,
  whose reply names the context of \<open>todo ! k\<close>; no write for a later job of \<open>todo\<close> follows.
  The result is the result of posting the comment.
\<close>

theorem status_write_fail_fast:
  assumes "todo = filter (to_skip filteredPresubmits statuses) presubmits"
    and "k < length todo"
    and "\<forall>i<k. CreateStatus gc (w @ map (status_written e pr) (take i todo))
                 (Repo_Owner_Login e) (Repo_Name e) (Head_SHA pr) (skipped (todo ! i)) = None"
    and "CreateStatus gc (w @ map (status_written e pr) (take k todo))
           (Repo_Owner_Login e) (Repo_Name e) (Head_SHA pr) (skipped (todo ! k)) = Some err"
    and "resp = ''Cannot update PR status for context '' @ Presubmit.Context (todo ! k)
                  @ '': '' @ Error err"
    and "comment = FormatResponseRaw x (Body e) (HTMLURL e) (User_Login e) resp"
    and "w' = w @ map (status_written e pr) (take (Suc k) todo) @ [EvLogWarn resp]"
  shows "handle_loop x gc e pr filteredPresubmits statuses presubmits w =
     (CreateComment gc w' (Repo_Owner_Login e) (Repo_Name e) (Number e) comment,
      w' @ [EvCreateComment (Repo_Owner_Login e) (Repo_Name e) (Number e) comment])"
  using handle_loop_first_failure [of k filteredPresubmits statuses presubmits gc w e pr err x] assms
  by (simp add: warn_and_comment_eq del: handle_loop.simps)

theorem status_write_fail_fast_witness:
  "handle_loop (externals_with (Inr [])) (client_with (Inr pr_7) (Inr combined_failing) failing_docs)
     (comment_with ''/skip'') pr_7 []
     [reported ''ci/lint'' ''failure'', reported ''ci/docs'' ''error'', reported ''ci/flaky'' ''pending'']
     [job_lint, job_docs, job_flaky] []
   = (None,
      [EvCreateStatus ''org'' ''repo'' ''abc123''
         \<lparr>Status.State = ''success'', Description = ''Skipped'', Status.Context = ''ci/lint''\<rparr>,
       EvCreateStatus ''org'' ''repo'' ''abc123''
         \<lparr>Status.State = ''success'', Description = ''Skipped'', Status.Context = ''ci/docs''\<rparr>,
       EvLogWarn ''Cannot update PR status for context ci/docs: HTTP 500'',
       EvCreateComment ''org'' ''repo'' 7
         ''@alice: Cannot update PR status for context ci/docs: HTTP 500''])"
  using status_write_fail_fast [where todo = "[job_lint, job_docs, job_flaky]"
      and filteredPresubmits = "[]"
      and statuses = "[reported ''ci/lint'' ''failure'', reported ''ci/docs'' ''error'',
                       reported ''ci/flaky'' ''pending'']"
      and presubmits = "[job_lint, job_docs, job_flaky]" and k = 1
      and gc = "client_with (Inr pr_7) (Inr combined_failing) failing_docs" and w = "[]"
      and e = "comment_with ''/skip''" and pr = pr_7 and err = "New ''HTTP 500''"
      and resp = "''Cannot update PR status for context ci/docs: HTTP 500''"
      and comment = "''@alice: Cannot update PR status for context ci/docs: HTTP 500''"
      and x = "externals_with (Inr [])"
      and w' = "[EvCreateStatus ''org'' ''repo'' ''abc123''
                   \<lparr>Status.State = ''success'', Description = ''Skipped'', Status.Context = ''ci/lint''\<rparr>,
                 EvCreateStatus ''org'' ''repo'' ''abc123''
                   \<lparr>Status.State = ''success'', Description = ''Skipped'', Status.Context = ''ci/docs''\<rparr>,
                 EvLogWarn ''Cannot update PR status for context ci/docs: HTTP 500'']"]
  by (simp add: inputs to_skip_def status_written_def skipped_def del: handle_loop.simps)

section \<open>A fetch that fails\<close>

text \<open>
  C7, as amended. When fetching the pull request, fetching the combined status or asking the
  trigger plugin for its jobs fails, \<^verbatim>\<open>handle\<close> logs a warning with the error, posts a
  comment with the same text, and ends. Its result is the result of posting the comment:
  \<^verbatim>\<open>nil\<close> when the comment was posted, the error of \<^verbatim>\<open>CreateComment\<close> otherwise. The error
  of the fetch is in the text of the warning and of the comment; it is not the result.
\<close>

theorem fetch_failure_commented:
  assumes "IsPR e" and "IssueState e = ''open''" and "Action e = GenericCommentActionCreated"
    and "skipRe_MatchString (Body e)"
  shows
    "(GetPullRequest gc w (Repo_Owner_Login e) (Repo_Name e) (Number e) = Inl err \<longrightarrow>
        handle x gc e c gitClient honorOkToTest w
          = warn_and_comment x gc e
              (''Cannot get PR #'' @ Sprintf_d (Number e) @ '' in '' @ Repo_Owner_Login e @ ''/''
                 @ Repo_Name e @ '': '' @ Error err)
              (w @ [EvGetPullRequest (Repo_Owner_Login e) (Repo_Name e) (Number e)]))
     \<and> (GetPullRequest gc w (Repo_Owner_Login e) (Repo_Name e) (Number e) = Inr pr
        \<and> GetPresubmits c gitClient (Repo_Owner_Login e @ ''/'' @ Repo_Name e) ''''
             (baseSHAGetter gc (Repo_Owner_Login e) (Repo_Name e) pr) (headSHAGetter pr)
             (w @ [EvGetPullRequest (Repo_Owner_Login e) (Repo_Name e) (Number e)])
           = (Inr presubmits, w2)
        \<and> GetCombinedStatus gc w2 (Repo_Owner_Login e) (Repo_Name e) (Head_SHA pr) = Inl err \<longrightarrow>
        handle x gc e c gitClient honorOkToTest w
          = warn_and_comment x gc e
              (''Cannot get combined commit statuses for PR #'' @ Sprintf_d (Number e) @ '' in ''
                 @ Repo_Owner_Login e @ ''/'' @ Repo_Name e @ '': '' @ Error err)
              (w2 @ [EvGetCombinedStatus (Repo_Owner_Login e) (Repo_Name e) (Head_SHA pr)]))
     \<and> (GetPullRequest gc w (Repo_Owner_Login e) (Repo_Name e) (Number e) = Inr pr
        \<and> GetPresubmits c gitClient (Repo_Owner_Login e @ ''/'' @ Repo_Name e) ''''
             (baseSHAGetter gc (Repo_Owner_Login e) (Repo_Name e) pr) (headSHAGetter pr)
             (w @ [EvGetPullRequest (Repo_Owner_Login e) (Repo_Name e) (Number e)])
           = (Inr presubmits, w2)
        \<and> GetCombinedStatus gc w2 (Repo_Owner_Login e) (Repo_Name e) (Head_SHA pr)
           = Inr combinedStatus
        \<and> CombinedStatus.State combinedStatus \<noteq> StatusSuccess
        \<and> FilterPresubmits x honorOkToTest gc (Body e) pr presubmits
             (w2 @ [EvGetCombinedStatus (Repo_Owner_Login e) (Repo_Name e) (Head_SHA pr)])
           = (Inl err, w4) \<longrightarrow>
        handle x gc e c gitClient honorOkToTest w
          = warn_and_comment x gc e
              (''Cannot get combined status for PR #'' @ Sprintf_d (Number e) @ '' in ''
                 @ Repo_Owner_Login e @ ''/'' @ Repo_Name e @ '': '' @ Error err)
              w4)
     \<and> warn_and_comment x gc e resp w'
         = (CreateComment gc (w' @ [EvLogWarn resp]) (Repo_Owner_Login e) (Repo_Name e) (Number e)
              (FormatResponseRaw x (Body e) (HTMLURL e) (User_Login e) resp),
            w' @ [EvLogWarn resp,
                  EvCreateComment (Repo_Owner_Login e) (Repo_Name e) (Number e)
                    (FormatResponseRaw x (Body e) (HTMLURL e) (User_Login e) resp)])"
proof (intro conjI impI)
  assume "GetPullRequest gc w (Repo_Owner_Login e) (Repo_Name e) (Number e) = Inl err"
  with assms show "handle x gc e c gitClient honorOkToTest w
          = warn_and_comment x gc e
              (''Cannot get PR #'' @ Sprintf_d (Number e) @ '' in '' @ Repo_Owner_Login e @ ''/''
                 @ Repo_Name e @ '': '' @ Error err)
              (w @ [EvGetPullRequest (Repo_Owner_Login e) (Repo_Name e) (Number e)])"
    by (simp add: handle_def call_GetPullRequest_def Let_def)
next
  assume "GetPullRequest gc w (Repo_Owner_Login e) (Repo_Name e) (Number e) = Inr pr
        \<and> GetPresubmits c gitClient (Repo_Owner_Login e @ ''/'' @ Repo_Name e) ''''
             (baseSHAGetter gc (Repo_Owner_Login e) (Repo_Name e) pr) (headSHAGetter pr)
             (w @ [EvGetPullRequest (Repo_Owner_Login e) (Repo_Name e) (Number e)])
           = (Inr presubmits, w2)
        \<and> GetCombinedStatus gc w2 (Repo_Owner_Login e) (Repo_Name e) (Head_SHA pr) = Inl err"
  with assms show "handle x gc e c gitClient honorOkToTest w
          = warn_and_comment x gc e
              (''Cannot get combined commit statuses for PR #'' @ Sprintf_d (Number e) @ '' in ''
                 @ Repo_Owner_Login e @ ''/'' @ Repo_Name e @ '': '' @ Error err)
              (w2 @ [EvGetCombinedStatus (Repo_Owner_Login e) (Repo_Name e) (Head_SHA pr)])"
    by (simp add: handle_def call_GetPullRequest_def call_GetCombinedStatus_def Let_def)
next
  assume "GetPullRequest gc w (Repo_Owner_Login e) (Repo_Name e) (Number e) = Inr pr
        \<and> GetPresubmits c gitClient (Repo_Owner_Login e @ ''/'' @ Repo_Name e) ''''
             (baseSHAGetter gc (Repo_Owner_Login e) (Repo_Name e) pr) (headSHAGetter pr)
             (w @ [EvGetPullRequest (Repo_Owner_Login e) (Repo_Name e) (Number e)])
           = (Inr presubmits, w2)
        \<and> GetCombinedStatus gc w2 (Repo_Owner_Login e) (Repo_Name e) (Head_SHA pr)
           = Inr combinedStatus
        \<and> CombinedStatus.State combinedStatus \<noteq> StatusSuccess
        \<and> FilterPresubmits x honorOkToTest gc (Body e) pr presubmits
             (w2 @ [EvGetCombinedStatus (Repo_Owner_Login e) (Repo_Name e) (Head_SHA pr)])
           = (Inl err, w4)"
  with assms show "handle x gc e c gitClient honorOkToTest w
          = warn_and_comment x gc e
              (''Cannot get combined status for PR #'' @ Sprintf_d (Number e) @ '' in ''
                 @ Repo_Owner_Login e @ ''/'' @ Repo_Name e @ '': '' @ Error err)
              w4"
    by (simp add: handle_def call_GetPullRequest_def call_GetCombinedStatus_def Let_def)
next
  show "warn_and_comment x gc e resp w'
         = (CreateComment gc (w' @ [EvLogWarn resp]) (Repo_Owner_Login e) (Repo_Name e) (Number e)
              (FormatResponseRaw x (Body e) (HTMLURL e) (User_Login e) resp),
            w' @ [EvLogWarn resp,
                  EvCreateComment (Repo_Owner_Login e) (Repo_Name e) (Number e)
                    (FormatResponseRaw x (Body e) (HTMLURL e) (User_Login e) resp)])"
    by (rule warn_and_comment_eq)
qed

theorem fetch_failure_commented_witness:
  "handle (externals_with (Inr []))
     (without_comments (client_with (Inl (New ''boom'')) (Inr combined_failing) writes_succeed))
     (comment_with ''/skip'') (config_with (Inr [job_lint])) () True []
   = (Some (New ''no comment''),
      [EvGetPullRequest ''org'' ''repo'' 7,
       EvLogWarn ''Cannot get PR #7 in org/repo: boom'',
       EvCreateComment ''org'' ''repo'' 7 ''@alice: Cannot get PR #7 in org/repo: boom''])
   \<and> handle (externals_with (Inr [])) (client_with (Inr pr_7) (Inl (New ''boom'')) writes_succeed)
       (comment_with ''/skip'') (config_with (Inr [job_lint])) () True []
     = (None,
        [EvGetPullRequest ''org'' ''repo'' 7,
         EvGetCombinedStatus ''org'' ''repo'' ''abc123'',
         EvLogWarn ''Cannot get combined commit statuses for PR #7 in org/repo: boom'',
         EvCreateComment ''org'' ''repo'' 7
           ''@alice: Cannot get combined commit statuses for PR #7 in org/repo: boom''])
   \<and> handle (externals_with (Inl (New ''boom'')))
       (client_with (Inr pr_7) (Inr combined_failing) writes_succeed)
       (comment_with ''/skip'') (config_with (Inr [job_lint])) () True []
     = (None,
        [EvGetPullRequest ''org'' ''repo'' 7,
         EvGetCombinedStatus ''org'' ''repo'' ''abc123'',
         EvLogWarn ''Cannot get combined status for PR #7 in org/repo: boom'',
         EvCreateComment ''org'' ''repo'' 7
           ''@alice: Cannot get combined status for PR #7 in org/repo: boom''])"
  using
    fetch_failure_commented [where e = "comment_with ''/skip''"
      and gc = "without_comments (client_with (Inl (New ''boom'')) (Inr combined_failing) writes_succeed)"
      and w = "[]" and err = "New ''boom''" and x = "externals_with (Inr [])"
      and c = "config_with (Inr [job_lint])" and gitClient = "()" and honorOkToTest = True
      and resp = "''Cannot get PR #7 in org/repo: boom''"
      and w' = "[EvGetPullRequest ''org'' ''repo'' 7]"]
    fetch_failure_commented [where e = "comment_with ''/skip''"
      and gc = "client_with (Inr pr_7) (Inl (New ''boom'')) writes_succeed"
      and w = "[]" and err = "New ''boom''" and x = "externals_with (Inr [])"
      and c = "config_with (Inr [job_lint])" and gitClient = "()" and honorOkToTest = True
      and pr = pr_7 and presubmits = "[job_lint]"
      and ?w2.0 = "[EvGetPullRequest ''org'' ''repo'' 7]"
      and resp = "''Cannot get combined commit statuses for PR #7 in org/repo: boom''"
      and w' = "[EvGetPullRequest ''org'' ''repo'' 7, EvGetCombinedStatus ''org'' ''repo'' ''abc123'']"]
    fetch_failure_commented [where e = "comment_with ''/skip''"
      and gc = "client_with (Inr pr_7) (Inr combined_failing) writes_succeed"
      and w = "[]" and err = "New ''boom''" and x = "externals_with (Inl (New ''boom''))"
      and c = "config_with (Inr [job_lint])" and gitClient = "()" and honorOkToTest = True
      and pr = pr_7 and presubmits = "[job_lint]"
      and ?w2.0 = "[EvGetPullRequest ''org'' ''repo'' 7]"
      and combinedStatus = combined_failing
      and ?w4.0 = "[EvGetPullRequest ''org'' ''repo'' 7, EvGetCombinedStatus ''org'' ''repo'' ''abc123'']"
      and resp = "''Cannot get combined status for PR #7 in org/repo: boom''"
      and w' = "[EvGetPullRequest ''org'' ''repo'' 7, EvGetCombinedStatus ''org'' ''repo'' ''abc123'']"]
  by (simp add: inputs pattern_eval Sprintf_d_def digits.simps)

text \<open>
  C7 as stated does not hold. The fetch of the pull request fails with the error \<^verbatim>\<open>boom\<close>
  and the comment is posted: the result of \<^verbatim>\<open>handle\<close> is \<^verbatim>\<open>nil\<close>, not the error of the
  fetch.
\<close>

theorem fetch_failure_not_returned:
  "GetPullRequest (client_with (Inl (New ''boom'')) (Inr combined_failing) writes_succeed) []
     ''org'' ''repo'' 7 = Inl (New ''boom'')
   \<and> handle (externals_with (Inr [])) (client_with (Inl (New ''boom'')) (Inr combined_failing) writes_succeed)
       (comment_with ''/skip'') (config_with (Inr [job_lint])) () True []
     = (None,
        [EvGetPullRequest ''org'' ''repo'' 7,
         EvLogWarn ''Cannot get PR #7 in org/repo: boom'',
         EvCreateComment ''org'' ''repo'' 7 ''@alice: Cannot get PR #7 in org/repo: boom''])
   \<and> fst (handle (externals_with (Inr []))
            (client_with (Inl (New ''boom'')) (Inr combined_failing) writes_succeed)
            (comment_with ''/skip'') (config_with (Inr [job_lint])) () True [])
       \<noteq> Some (New ''boom'')"
  by (simp add: handle_def call_GetPullRequest_def warn_and_comment_eq Sprintf_d_def digits.simps Let_def
        inputs pattern_eval)

end
